theory Spec2Isabelle
  imports Main "HOL-Library.Multiset"
begin

section \<open>Python values, exceptions and the log\<close>

text \<open>
  The values that \<^verbatim>\<open>resp.json()\<close> can return, as Python sees them: a JSON object is a
  \<^verbatim>\<open>dict\<close> (kept as an association list with one pair for each key), an array is a
  \<^verbatim>\<open>list\<close>. A \<open>char\<close> stands for one character of a Python \<^verbatim>\<open>str\<close>.
  Numbers are only stored and passed on by the program, so one constructor stands for
  them.
\<close>

datatype pyval =
    PNone
  | PBool bool
  | PInt int
  | PStr string
  | PList "pyval list"
  | PDict "(string \<times> pyval) list"

text \<open>
  The failures the program can meet. Every one of them is a subclass of Python's
  \<^verbatim>\<open>Exception\<close>, which is what both handlers of the program catch
  (\<^verbatim>\<open>except Exception as e\<close>).
\<close>

datatype exn =
    ClientConnectionError
  | ClientResponseError nat
  | TimeoutError
  | InvalidURL
  | ContentTypeError
  | JSONDecodeError
  | UnicodeDecodeError
  | ParserRejectedMarkup
  | AttributeError
  | TypeError
  | IndexError
  | OSError

text \<open>
  The \<^verbatim>\<open>logging\<close> calls of the program: the level, and the message with the values
  that its f-string formats.
\<close>

datatype level = INFO | WARNING | ERROR

datatype message =
    Searching string
  | Failed_to_fetch_URL pyval exn
  | Error_fetching string string exn
  | Data_saved_successfully_to string
  | No_data_to_save

type_synonym log_entry = "level \<times> message"

text \<open>\<^verbatim>\<open>d.get(key, default)\<close>: only a dict has the method.\<close>

definition py_get :: "pyval \<Rightarrow> string \<Rightarrow> pyval \<Rightarrow> exn + pyval" where
  "py_get d key dflt =
     (case d of
        PDict kvs \<Rightarrow> (case map_of kvs key of Some v \<Rightarrow> Inr v | None \<Rightarrow> Inr dflt)
      | _ \<Rightarrow> Inl AttributeError)"

text \<open>
  \<^verbatim>\<open>for x in v\<close>: a list yields its elements, a dict its keys, a string its
  characters; nothing else can be iterated.
\<close>

definition py_iter :: "pyval \<Rightarrow> exn + pyval list" where
  "py_iter v =
     (case v of
        PList xs \<Rightarrow> Inr xs
      | PDict kvs \<Rightarrow> Inr (map (\<lambda>kv. PStr (fst kv)) kvs)
      | PStr s \<Rightarrow> Inr (map (\<lambda>c. PStr [c]) s)
      | _ \<Rightarrow> Inl TypeError)"

text \<open>
  \<^verbatim>\<open>xs[i]\<close> as a position of the list: a negative index counts from the end, an
  index out of range raises.
\<close>

definition py_index :: "nat \<Rightarrow> int \<Rightarrow> exn + nat" where
  "py_index len i =
     (let j = (if i < 0 then int len + i else i)
      in if 0 \<le> j \<and> j < int len then Inr (nat j) else Inl IndexError)"

text \<open>\<^verbatim>\<open>xs[:k]\<close>: a negative bound counts from the end.\<close>

definition py_slice_to :: "'a list \<Rightarrow> int \<Rightarrow> 'a list" where
  "py_slice_to xs k =
     (if k < 0 then take (nat (int (length xs) + k)) xs else take (nat k) xs)"

text \<open>\<^verbatim>\<open>" ".join(xs)\<close>\<close>

fun join :: "string list \<Rightarrow> string" where
  "join [] = []"
| "join [x] = x"
| "join (x # y # ys) = x @ '' '' @ join (y # ys)"

section \<open>The HTTP client\<close>

text \<open>
  What the program observes of an aiohttp response: whether
  \<^verbatim>\<open>raise_for_status()\<close> raises, and what reading the body (\<^verbatim>\<open>text()\<close> for a
  page, \<^verbatim>\<open>json()\<close> for the search API) gives.
\<close>

record 'a response =
  raise_for_status :: "exn option"
  content :: "exn + 'a"

text \<open>
  A session as \<open>fetch_page\<close> uses it: the URL and the timeout in seconds give either
  the exception of \<^verbatim>\<open>session.get\<close> or a response.
\<close>

type_synonym session = "pyval \<Rightarrow> nat \<Rightarrow> exn + string response"

section \<open>Constants\<close>

definition API_KEY :: string where
  "API_KEY = ''please create your own account for the key access link: https://serpapi.com/ ''"

definition CITY :: string where
  "CITY = ''Lahore''"

definition PLACE_TYPES :: "string list" where
  "PLACE_TYPES = [''coffee shops'']"

definition RESULTS_LIMIT :: int where
  "RESULTS_LIMIT = 5"

definition OUTPUT_FILE :: string where
  "OUTPUT_FILE = ''Coffee_Shops_Lahore.xlsx''"

definition DELAY_BETWEEN_QUERIES :: nat where
  "DELAY_BETWEEN_QUERIES = 1"

section \<open>Page fetcher, text extractor, detail resolver\<close>

text \<open>The body of the \<^verbatim>\<open>try\<close> block of \<open>fetch_page\<close>.\<close>

definition fetch_page_try :: "session \<Rightarrow> pyval \<Rightarrow> exn + string" where
  "fetch_page_try session url =
     (case session url 10 of
        Inl e \<Rightarrow> Inl e
      | Inr response \<Rightarrow>
          (case raise_for_status response of
             Some e \<Rightarrow> Inl e
           | None \<Rightarrow>
               (case content response of
                  Inl e \<Rightarrow> Inl e
                | Inr text \<Rightarrow> Inr text)))"

text \<open>
  \<open>fetch_page\<close> returns the text and the log entries it has written. The handler
  catches every exception of the block, so there is no exception in the result.
\<close>

definition fetch_page :: "session \<Rightarrow> pyval \<Rightarrow> string \<times> log_entry list" where
  "fetch_page session url =
     (case fetch_page_try session url of
        Inr text \<Rightarrow> (text, [])
      | Inl e \<Rightarrow> ('''', [(WARNING, Failed_to_fetch_URL url e)]))"

text \<open>
  The first argument is \<^verbatim>\<open>BeautifulSoup(html, "html.parser").stripped_strings\<close>, the
  parser of the bs4 library: on a markup it gives the list of its strings, or it raises
  (\<^verbatim>\<open>ParserRejectedMarkup\<close> on markup that \<^verbatim>\<open>html.parser\<close> rejects).
  \<open>extract_details_from_html\<close> has no handler, so the exception is its result.
\<close>

definition extract_details_from_html ::
  "(string \<Rightarrow> exn + string list) \<Rightarrow> string \<Rightarrow> int \<Rightarrow> exn + string" where
  "extract_details_from_html stripped_strings html char_limit =
     (if html = [] then Inr ''N/A''
      else case stripped_strings html of
             Inl e \<Rightarrow> Inl e
           | Inr strings \<Rightarrow>
               (let text = join strings
                in Inr (py_slice_to text char_limit)))"

text \<open>
  The call leaves \<^verbatim>\<open>char_limit\<close> at its default, 600. \<open>extract_place_details\<close>
  has no handler either: an exception of the extractor is its result, next to what the
  fetcher has logged.
\<close>

definition extract_place_details ::
  "(string \<Rightarrow> exn + string list) \<Rightarrow> session \<Rightarrow> pyval \<Rightarrow> (exn + string) \<times> log_entry list" where
  "extract_place_details stripped_strings session link =
     (let (html, logged) = fetch_page session link
      in (extract_details_from_html stripped_strings html 600, logged))"

section \<open>Query runner\<close>

text \<open>
  A place record is the dict that \<open>fetch_places_async\<close> appends, with its seven keys.
  The title, snippet and link are whatever the response holds under these keys.
\<close>

record place_record =
  City :: string
  Place_Type :: string
  Name :: pyval
  Description :: pyval
  Details :: "string option"
  Link :: pyval
  Fetched_On :: string

text \<open>
  The outside of one run. The search request of the \<open>k\<close>-th place type and the page
  request of the \<open>i\<close>-th resolver of the \<open>k\<close>-th batch have an outcome each;
  \<open>latency w k i\<close> is the time at which that resolver completes; \<open>now w n\<close> is what
  \<^verbatim>\<open>datetime.now().strftime("%Y-%m-%d %H:%M:%S")\<close> gives at its \<open>n\<close>-th call;
  \<open>stripped_strings w\<close> is the parser.
\<close>

record world =
  search_get :: "nat \<Rightarrow> string \<Rightarrow> (string \<times> pyval) list \<Rightarrow> exn + pyval response"
  page_get :: "nat \<Rightarrow> nat \<Rightarrow> session"
  latency :: "nat \<Rightarrow> nat \<Rightarrow> nat"
  now :: "nat \<Rightarrow> string"
  stripped_strings :: "string \<Rightarrow> exn + string list"

text \<open>
  The state of a run: the list \<^verbatim>\<open>all_data\<close>, the log, the number of clock readings
  and the seconds slept so far. \<open>assigned\<close> is the history of the statement
  \<^verbatim>\<open>all_data[...]["Details"] = details\<close>: the position written at each execution.
\<close>

record state =
  all_data :: "place_record list"
  assigned :: "nat list"
  log :: "log_entry list"
  clock :: nat
  slept :: nat

text \<open>
  The loop over the result entries. It returns the exception that ended it, if any, the
  links of the scheduled resolvers (\<^verbatim>\<open>tasks\<close>) and the state; what it has appended
  before an exception stays appended.
\<close>

fun results_loop ::
  "world \<Rightarrow> string \<Rightarrow> string \<Rightarrow> pyval list \<Rightarrow> pyval list \<Rightarrow> state
     \<Rightarrow> exn option \<times> pyval list \<times> state" where
  "results_loop w city place [] tasks st = (None, tasks, st)"
| "results_loop w city place (result # rest) tasks st =
     (case py_get result ''title'' (PStr ''N/A'') of
        Inl e \<Rightarrow> (Some e, tasks, st)
      | Inr title \<Rightarrow>
     (case py_get result ''snippet'' (PStr ''N/A'') of
        Inl e \<Rightarrow> (Some e, tasks, st)
      | Inr snippet \<Rightarrow>
     (case py_get result ''link'' (PStr []) of
        Inl e \<Rightarrow> (Some e, tasks, st)
      | Inr link \<Rightarrow>
          results_loop w city place rest (tasks @ [link])
            (st\<lparr>all_data := all_data st @
                   [\<lparr>City = city, Place_Type = place, Name = title, Description = snippet,
                     Details = None, Link = link, Fetched_On = now w (clock st)\<rparr>],
                 clock := Suc (clock st)\<rparr>))))"

text \<open>
  \<^verbatim>\<open>await asyncio.gather(*tasks)\<close>. Each task is given by its outcome, a result or
  an exception, and by what it logs. The tasks complete in the order of their latencies,
  and each completion carries the position of its task. \<open>await_all\<close> goes through the
  completions in this order: the first exception ends the wait and is raised to the
  caller, with the log as the completions before it have left it; when every task has
  returned, the results are handed back by position. The tasks that are still running
  when the wait ends with an exception are awaited by nobody: what they log afterwards
  is not followed.
\<close>

fun await_all ::
  "(nat \<times> (exn + 'a) \<times> log_entry list) list \<Rightarrow> (nat \<times> 'a) list \<Rightarrow> log_entry list
     \<Rightarrow> (exn + (nat \<times> 'a) list) \<times> log_entry list" where
  "await_all [] returned lg = (Inr returned, lg)"
| "await_all ((i, outcome, logged) # rest) returned lg =
     (case outcome of
        Inl e \<Rightarrow> (Inl e, lg @ logged)
      | Inr x \<Rightarrow> await_all rest (returned @ [(i, x)]) (lg @ logged))"

definition gather ::
  "(nat \<Rightarrow> nat) \<Rightarrow> ((exn + 'a) \<times> log_entry list) list \<Rightarrow> (exn + 'a list) \<times> log_entry list" where
  "gather lat tasks =
     (let completion_order = sort_key lat [0..<length tasks];
          completed = map (\<lambda>i. (i, tasks ! i)) completion_order
      in case await_all completed [] [] of
           (Inl e, logged) \<Rightarrow> (Inl e, logged)
         | (Inr returned, logged) \<Rightarrow> (Inr (map snd (sort_key fst returned)), logged))"

text \<open>
  \<^verbatim>\<open>for i, details in enumerate(details_results):
      all_data[-len(details_results) + i]["Details"] = details\<close>
\<close>

fun merge_loop :: "nat \<Rightarrow> nat \<Rightarrow> string list \<Rightarrow> state \<Rightarrow> exn option \<times> state" where
  "merge_loop n i [] st = (None, st)"
| "merge_loop n i (details # rest) st =
     (case py_index (length (all_data st)) (- int n + int i) of
        Inl e \<Rightarrow> (Some e, st)
      | Inr j \<Rightarrow>
          merge_loop n (Suc i) rest
            (st\<lparr>all_data := (all_data st)[j := (all_data st ! j)\<lparr>Details := Some details\<rparr>],
                 assigned := assigned st @ [j]\<rparr>))"

text \<open>The dict \<^verbatim>\<open>params\<close> of the search request.\<close>

definition params :: "string \<Rightarrow> int \<Rightarrow> string \<Rightarrow> (string \<times> pyval) list" where
  "params query limit api_key =
     [(''engine'', PStr ''google''), (''q'', PStr query),
      (''num'', PInt limit), (''api_key'', PStr api_key)]"

text \<open>
  The body of the \<^verbatim>\<open>try\<close> block, for the \<open>k\<close>-th place type. An exception of
  \<^verbatim>\<open>gather\<close> leaves the block before the merge and the sleep; the records that the
  loop over the entries has appended stay as they are.
\<close>

definition fetch_places_try ::
  "world \<Rightarrow> string \<Rightarrow> string \<Rightarrow> string \<Rightarrow> int \<Rightarrow> nat \<Rightarrow> string \<Rightarrow> state \<Rightarrow> exn option \<times> state" where
  "fetch_places_try w city place api_key limit k query st =
     (case search_get w k ''https://serpapi.com/search'' (params query limit api_key) of
        Inl e \<Rightarrow> (Some e, st)
      | Inr resp \<Rightarrow>
     (case raise_for_status resp of
        Some e \<Rightarrow> (Some e, st)
      | None \<Rightarrow>
     (case content resp of
        Inl e \<Rightarrow> (Some e, st)
      | Inr results \<Rightarrow>
     (case py_get results ''organic_results'' (PList []) of
        Inl e \<Rightarrow> (Some e, st)
      | Inr organic_results \<Rightarrow>
     (case py_iter organic_results of
        Inl e \<Rightarrow> (Some e, st)
      | Inr entries \<Rightarrow>
     (case results_loop w city place entries [] st of
        (Some e, tasks, st1) \<Rightarrow> (Some e, st1)
      | (None, tasks, st1) \<Rightarrow>
          (case gather (latency w k)
                  (map (\<lambda>(i, link). extract_place_details (stripped_strings w) (page_get w k i) link)
                     (enumerate 0 tasks)) of
             (Inl e, logged) \<Rightarrow> (Some e, st1\<lparr>log := log st1 @ logged\<rparr>)
           | (Inr details_results, logged) \<Rightarrow>
               (let st2 = st1\<lparr>log := log st1 @ logged\<rparr>
                in case merge_loop (length details_results) 0 details_results st2 of
                     (Some e, st3) \<Rightarrow> (Some e, st3)
                   | (None, st3) \<Rightarrow>
                       (None, st3\<lparr>slept := slept st3 + DELAY_BETWEEN_QUERIES\<rparr>)))))))))"

text \<open>One round of \<^verbatim>\<open>for place in place_types\<close>, with its handler.\<close>

definition fetch_place ::
  "world \<Rightarrow> string \<Rightarrow> string \<Rightarrow> int \<Rightarrow> nat \<Rightarrow> string \<Rightarrow> state \<Rightarrow> state" where
  "fetch_place w city api_key limit k place st =
     (let query = place @ '' in '' @ city;
          st0 = st\<lparr>log := log st @ [(INFO, Searching query)]\<rparr>
      in case fetch_places_try w city place api_key limit k query st0 of
           (None, st1) \<Rightarrow> st1
         | (Some e, st1) \<Rightarrow> st1\<lparr>log := log st1 @ [(ERROR, Error_fetching place city e)]\<rparr>)"

fun fetch_places_loop ::
  "world \<Rightarrow> string \<Rightarrow> string \<Rightarrow> int \<Rightarrow> nat \<Rightarrow> string list \<Rightarrow> state \<Rightarrow> state" where
  "fetch_places_loop w city api_key limit k [] st = st"
| "fetch_places_loop w city api_key limit k (place # rest) st =
     fetch_places_loop w city api_key limit (Suc k) rest
       (fetch_place w city api_key limit k place st)"

text \<open>
  \<open>fetch_places_async\<close> starts from an empty \<^verbatim>\<open>all_data\<close> and returns it; the state
  it leaves holds the log.
\<close>

definition fetch_places_async ::
  "world \<Rightarrow> string \<Rightarrow> string list \<Rightarrow> string \<Rightarrow> int \<Rightarrow> state \<Rightarrow> place_record list \<times> state" where
  "fetch_places_async w city place_types api_key limit st =
     (let st' = fetch_places_loop w city api_key limit 0 place_types
                  (st\<lparr>all_data := [], assigned := []\<rparr>)
      in (all_data st', st'))"

section \<open>Exporter\<close>

text \<open>
  A sheet is a list of rows of cells. \<^verbatim>\<open>pd.DataFrame(data)\<close> of the place records has
  their keys as columns, in the order of the dict, and one row for each record.
\<close>

type_synonym sheet = "pyval list list"

record data_frame =
  columns :: "string list"
  rows :: "pyval list list"

definition DataFrame :: "place_record list \<Rightarrow> data_frame" where
  "DataFrame data =
     \<lparr>columns = [''City'', ''Place Type'', ''Name'', ''Description'', ''Details'', ''Link'',
                 ''Fetched On''],
      rows = map (\<lambda>r. [PStr (City r), PStr (Place_Type r), Name r, Description r,
                        (case Details r of None \<Rightarrow> PNone | Some d \<Rightarrow> PStr d),
                        Link r, PStr (Fetched_On r)]) data\<rparr>"

text \<open>
  \<^verbatim>\<open>df.to_excel(file_name, index=False)\<close>: the header and the rows go to the file, or
  the write fails (\<open>writable\<close> says which paths can be written).
\<close>

definition to_excel ::
  "(string \<Rightarrow> bool) \<Rightarrow> data_frame \<Rightarrow> string \<Rightarrow> (string \<rightharpoonup> sheet) \<Rightarrow> exn + (string \<rightharpoonup> sheet)" where
  "to_excel writable df file_name files =
     (if writable file_name
      then Inr (files(file_name \<mapsto> map PStr (columns df) # rows df))
      else Inl OSError)"

text \<open>
  \<open>save_to_excel\<close> has no handler: the exception of a failed write is its result.
\<close>

definition save_to_excel ::
  "(string \<Rightarrow> bool) \<Rightarrow> place_record list \<Rightarrow> string \<Rightarrow> (string \<rightharpoonup> sheet) \<times> log_entry list
     \<Rightarrow> exn option \<times> (string \<rightharpoonup> sheet) \<times> log_entry list" where
  "save_to_excel writable data file_name fl =
     (case fl of (files, lg) \<Rightarrow>
        if data \<noteq> []
        then (let df = DataFrame data
              in case to_excel writable df file_name files of
                   Inl e \<Rightarrow> (Some e, files, lg)
                 | Inr files' \<Rightarrow>
                     (None, files', lg @ [(INFO, Data_saved_successfully_to file_name)]))
        else (None, files, lg @ [(WARNING, No_data_to_save)]))"

section \<open>Main execution\<close>

text \<open>The run of the script: fetch with the constants, then save.\<close>

definition main ::
  "world \<Rightarrow> (string \<Rightarrow> bool) \<Rightarrow> state \<Rightarrow> (string \<rightharpoonup> sheet)
     \<Rightarrow> exn option \<times> (string \<rightharpoonup> sheet) \<times> state" where
  "main w writable st files =
     (case fetch_places_async w CITY PLACE_TYPES API_KEY RESULTS_LIMIT st of
        (place_data, st1) \<Rightarrow>
          (case save_to_excel writable place_data OUTPUT_FILE (files, log st1) of
             (failure, files', lg) \<Rightarrow> (failure, files', st1\<lparr>log := lg\<rparr>)))"

section \<open>Notions for the statements\<close>

text \<open>
  What a request gives once the status is checked and the body is read: the first
  exception of the three steps, or the body.
\<close>

definition received :: "exn + 'a response \<Rightarrow> exn + 'a" where
  "received outcome =
     (case outcome of
        Inl e \<Rightarrow> Inl e
      | Inr resp \<Rightarrow> (case raise_for_status resp of Some e \<Rightarrow> Inl e | None \<Rightarrow> content resp))"

text \<open>The entries that have a \<^verbatim>\<open>get\<close> method.\<close>

definition is_dict :: "pyval \<Rightarrow> bool" where
  "is_dict v = (case v of PDict kvs \<Rightarrow> True | _ \<Rightarrow> False)"

text \<open>The value of \<^verbatim>\<open>d.get(key, default)\<close> on a dict.\<close>

definition get_or :: "pyval \<Rightarrow> string \<Rightarrow> pyval \<Rightarrow> pyval" where
  "get_or d key dflt = (case py_get d key dflt of Inr v \<Rightarrow> v | Inl e \<Rightarrow> dflt)"

text \<open>
  The dict literal of \<open>results_loop\<close>, for an entry and the number of the clock
  reading that stamps it.
\<close>

definition created :: "world \<Rightarrow> string \<Rightarrow> string \<Rightarrow> nat \<times> pyval \<Rightarrow> place_record" where
  "created w city place cr =
     \<lparr>City = city, Place_Type = place, Name = get_or (snd cr) ''title'' (PStr ''N/A''),
      Description = get_or (snd cr) ''snippet'' (PStr ''N/A''), Details = None,
      Link = get_or (snd cr) ''link'' (PStr []), Fetched_On = now w (fst cr)\<rparr>"

text \<open>The assignment of \<open>merge_loop\<close> to one record.\<close>

definition resolve :: "place_record \<Rightarrow> string \<Rightarrow> place_record" where
  "resolve r d = r\<lparr>Details := Some d\<rparr>"

text \<open>
  The resolvers of the \<open>k\<close>-th batch, one for the link of each entry, and the batch
  they leave when all of them return: each created record with the detail that the
  resolver at its position has returned.
\<close>

definition resolvers :: "world \<Rightarrow> nat \<Rightarrow> pyval list \<Rightarrow> ((exn + string) \<times> log_entry list) list" where
  "resolvers w k entries =
     map (\<lambda>(i, link). extract_place_details (stripped_strings w) (page_get w k i) link)
       (enumerate 0 (map (\<lambda>r. get_or r ''link'' (PStr [])) entries))"

definition batch :: "world \<Rightarrow> string \<Rightarrow> string \<Rightarrow> nat \<Rightarrow> nat \<Rightarrow> pyval list \<Rightarrow> place_record list" where
  "batch w city place k c entries =
     map2 resolve (map (created w city place) (enumerate c entries))
       (map (\<lambda>task. projr (fst task)) (resolvers w k entries))"

text \<open>Tasks that all return: none of them raises.\<close>

definition all_return :: "((exn + 'a) \<times> log_entry list) list \<Rightarrow> bool" where
  "all_return tasks = list_all (\<lambda>task. \<not> isl (fst task)) tasks"

text \<open>Two states that differ at most in the log.\<close>

definition same_but_log :: "state \<Rightarrow> state \<Rightarrow> bool" where
  "same_but_log s t \<longleftrightarrow>
     all_data s = all_data t \<and> assigned s = assigned t \<and> clock s = clock t \<and> slept s = slept t"

text \<open>
  A state in which a record has a detail exactly when its position has been assigned,
  no position has been assigned twice, and nothing else has been assigned.
\<close>

definition at_most_once :: "state \<Rightarrow> bool" where
  "at_most_once st \<longleftrightarrow>
     (\<forall>j<length (all_data st).
        Details (all_data st ! j) = None \<and> count_list (assigned st) j = 0
        \<or> Details (all_data st ! j) \<noteq> None \<and> count_list (assigned st) j = 1)
     \<and> (\<forall>j\<in>set (assigned st). j < length (all_data st))"

section \<open>Examples\<close>

definition ok_response :: "'a \<Rightarrow> 'a response" where
  "ok_response x = \<lparr>raise_for_status = None, content = Inr x\<rparr>"

definition L1 :: pyval where "L1 = PStr ''http://l1.example/''"
definition L2 :: pyval where "L2 = PStr ''http://l2.example/''"

text \<open>A session in which L1 answers with a paragraph and everything else times out.\<close>

definition demo_session :: session where
  "demo_session url timeout =
     (if url = L1 then Inr (ok_response ''<p>Hello</p>'') else Inl TimeoutError)"

text \<open>
  A stand-in for the parser on the markups of the examples; the second markup is one
  that \<^verbatim>\<open>html.parser\<close> rejects.
\<close>

definition demo_parser :: "string \<Rightarrow> exn + string list" where
  "demo_parser html =
     (if html = ''<p>Hello</p>'' then Inr [''Hello'']
      else if html = ''<![foo[bar]]>'' then Inl ParserRejectedMarkup
      else Inr [html])"

text \<open>
  A run: the search for coffee shops in Lahore answers with two entries, A with the
  link L1 and B with the link L2, whatever \<^verbatim>\<open>num\<close> asks for; every other search is
  refused with status 429. The resolver of L2 completes before the resolver of L1.
\<close>

definition entry_A :: pyval where
  "entry_A = PDict [(''title'', PStr ''A''), (''link'', L1)]"

definition entry_B :: pyval where
  "entry_B = PDict [(''title'', PStr ''B''), (''snippet'', PStr ''b''), (''link'', L2)]"

definition demo_results :: pyval where
  "demo_results = PDict [(''search_metadata'', PNone), (''organic_results'', PList [entry_A, entry_B])]"

definition demo_world :: world where
  "demo_world =
     \<lparr>search_get = (\<lambda>k url params.
        if map_of params ''q'' = Some (PStr ''coffee shops in Lahore'')
        then Inr (ok_response demo_results)
        else Inr \<lparr>raise_for_status = Some (ClientResponseError 429), content = Inr PNone\<rparr>),
      page_get = (\<lambda>k i. demo_session),
      latency = (\<lambda>k i. 7 - i),
      now = (\<lambda>n. if n = 0 then ''2024-05-01 10:00:00'' else ''2024-05-01 10:00:01''),
      stripped_strings = demo_parser\<rparr>"

text \<open>The same run with a search that answers with the entry A and a number.\<close>

definition malformed_world :: world where
  "malformed_world =
     demo_world\<lparr>search_get := (\<lambda>k url params.
        Inr (ok_response (PDict [(''organic_results'', PList [entry_A, PInt 5])])))\<rparr>"

text \<open>
  The same run again, with a page at L1 that the parser rejects; L2 times out as before.
\<close>

definition rejecting_session :: session where
  "rejecting_session url timeout =
     (if url = L1 then Inr (ok_response ''<![foo[bar]]>'') else Inl TimeoutError)"

definition rejecting_world :: world where
  "rejecting_world = demo_world\<lparr>page_get := (\<lambda>k i. rejecting_session)\<rparr>"

definition start :: state where
  "start = \<lparr>all_data = [], assigned = [], log = [], clock = 0, slept = 0\<rparr>"

definition record_A :: place_record where
  "record_A = \<lparr>City = ''Lahore'', Place_Type = ''coffee shops'', Name = PStr ''A'',
      Description = PStr ''N/A'', Details = Some ''Hello'', Link = L1,
      Fetched_On = ''2024-05-01 10:00:00''\<rparr>"

definition record_B :: place_record where
  "record_B = \<lparr>City = ''Lahore'', Place_Type = ''coffee shops'', Name = PStr ''B'',
      Description = PStr ''b'', Details = Some ''N/A'', Link = L2,
      Fetched_On = ''2024-05-01 10:00:01''\<rparr>"

section \<open>The loops in closed form\<close>

lemma py_get_dict: "is_dict d \<Longrightarrow> py_get d key dflt = Inr (get_or d key dflt)"
  by (auto simp: is_dict_def get_or_def py_get_def split: pyval.splits option.splits)

lemma py_get_not_dict: "\<not> is_dict d \<Longrightarrow> py_get d key dflt = Inl AttributeError"
  by (auto simp: is_dict_def py_get_def split: pyval.splits)

lemma results_loop_dicts:
  "list_all is_dict entries \<Longrightarrow>
   results_loop w city place entries tasks st =
     (None, tasks @ map (\<lambda>r. get_or r ''link'' (PStr [])) entries,
      st\<lparr>all_data := all_data st @ map (created w city place) (enumerate (clock st) entries),
         clock := clock st + length entries\<rparr>)"
proof (induction entries arbitrary: tasks st)
  case Nil
  then show ?case by simp
next
  case (Cons r rest)
  then show ?case
    by (simp add: py_get_dict created_def)
qed

lemma results_loop_not_dict:
  "\<not> is_dict r \<Longrightarrow> results_loop w city place (r # rest) tasks st = (Some AttributeError, tasks, st)"
  by (simp add: py_get_not_dict)

lemma await_all_returned:
  "\<forall>c\<in>set completed. \<not> isl (fst (snd c)) \<Longrightarrow>
   await_all completed returned lg =
     (Inr (returned @ map (\<lambda>c. (fst c, projr (fst (snd c)))) completed),
      lg @ concat (map (\<lambda>c. snd (snd c)) completed))"
proof (induction completed arbitrary: returned lg)
  case Nil
  show ?case by simp
next
  case (Cons c rest)
  obtain i outcome logged where c: "c = (i, outcome, logged)"
    by (cases c)
  with Cons.prems obtain x where x: "outcome = Inr x"
    by (cases outcome) auto
  from Cons.prems have "\<forall>c\<in>set rest. \<not> isl (fst (snd c))"
    by simp
  from Cons.IH [OF this] c x show ?case
    by simp
qed

lemma await_all_raised:
  "\<exists>c\<in>set completed. isl (fst (snd c)) \<Longrightarrow>
   \<exists>e lg'. await_all completed returned lg = (Inl e, lg')"
proof (induction completed arbitrary: returned lg)
  case Nil
  then show ?case by simp
next
  case (Cons c rest)
  obtain i outcome logged where c: "c = (i, outcome, logged)"
    by (cases c)
  show ?case
  proof (cases outcome)
    case (Inl e)
    with c show ?thesis by simp
  next
    case (Inr x)
    with Cons.prems c have "\<exists>c\<in>set rest. isl (fst (snd c))"
      by simp
    from Cons.IH [OF this] c Inr show ?thesis
      by simp
  qed
qed

lemma gather_returned:
  assumes "\<forall>task\<in>set tasks. \<not> isl (fst task)"
  shows "fst (gather lat tasks) = Inr (map (\<lambda>task. projr (fst task)) tasks)"
proof -
  let ?order = "sort_key lat [0..<length tasks]"
  let ?completed = "map (\<lambda>i. (i, tasks ! i)) ?order"
  let ?g = "\<lambda>i. (i, projr (fst (tasks ! i)))"
  have "\<forall>c\<in>set ?completed. \<not> isl (fst (snd c))"
    using assms by auto
  from await_all_returned [OF this, of "[]" "[]"]
  have a: "fst (await_all ?completed [] []) = Inr (map ?g ?order)"
    by (simp add: comp_def)
  have "sort_key fst (map ?g ?order) = map ?g [0..<length tasks]"
  proof (rule sort_key_inj_key_eq)
    show "mset (map ?g ?order) = mset (map ?g [0..<length tasks])"
      by simp
    show "inj_on fst (set (map ?g ?order))"
      by (auto simp: inj_on_def)
    show "sorted (map fst (map ?g [0..<length tasks]))"
      by (simp add: comp_def)
  qed
  then have "map snd (sort_key fst (map ?g ?order)) = map snd (map ?g [0..<length tasks])"
    by (rule arg_cong)
  also have "\<dots> = map (\<lambda>task. projr (fst task)) tasks"
    by (intro nth_equalityI) simp_all
  finally have s: "map snd (sort_key fst (map ?g ?order)) = map (\<lambda>task. projr (fst task)) tasks" .
  show ?thesis
    unfolding gather_def Let_def split_beta a sum.case fst_conv s ..
qed

lemma gather_raised:
  assumes "\<exists>task\<in>set tasks. isl (fst task)"
  shows "\<exists>e. fst (gather lat tasks) = Inl e"
proof -
  let ?order = "sort_key lat [0..<length tasks]"
  let ?completed = "map (\<lambda>i. (i, tasks ! i)) ?order"
  from assms obtain i where "i < length tasks" "isl (fst (tasks ! i))"
    by (auto simp: in_set_conv_nth)
  then have "\<exists>c\<in>set ?completed. isl (fst (snd c))"
    by auto
  from await_all_raised [OF this, of "[]" "[]"]
  obtain e lg where "await_all ?completed [] [] = (Inl e, lg)"
    by blast
  then have "fst (await_all ?completed [] []) = Inl e"
    by simp
  then show ?thesis
    unfolding gather_def Let_def split_beta by (simp only: sum.case fst_conv) blast
qed

lemma merge_loop_closed:
  "i + length ds = n \<Longrightarrow> n \<le> length (all_data st) \<Longrightarrow>
   merge_loop n i ds st =
     (None, st\<lparr>all_data := take (length (all_data st) - n + i) (all_data st)
                   @ map2 resolve (drop (length (all_data st) - n + i) (all_data st)) ds,
               assigned := assigned st @ [length (all_data st) - n + i ..< length (all_data st)]\<rparr>)"
proof (induction ds arbitrary: i st)
  case Nil
  then show ?case by simp
next
  case (Cons d ds)
  let ?xs = "all_data st"
  let ?j = "length ?xs - n + i"
  from Cons.prems have j: "?j < length ?xs" and i: "i < n" by auto
  from Cons.prems i have idx: "py_index (length ?xs) (- int n + int i) = Inr ?j"
    by (auto simp: py_index_def Let_def)
  let ?st' = "st\<lparr>all_data := ?xs[?j := (?xs ! ?j)\<lparr>Details := Some d\<rparr>], assigned := assigned st @ [?j]\<rparr>"
  have IH: "merge_loop n (Suc i) ds ?st' =
     (None, ?st'\<lparr>all_data := take (length (all_data ?st') - n + Suc i) (all_data ?st')
                   @ map2 resolve (drop (length (all_data ?st') - n + Suc i) (all_data ?st')) ds,
               assigned := assigned ?st' @ [length (all_data ?st') - n + Suc i ..< length (all_data ?st')]\<rparr>)"
    using Cons.prems by (intro Cons.IH) auto
  have t: "take (Suc ?j) (?xs[?j := resolve (?xs ! ?j) d]) = take ?j ?xs @ [resolve (?xs ! ?j) d]"
    using j by (simp add: take_Suc_conv_app_nth)
  have dr: "drop ?j ?xs = ?xs ! ?j # drop (Suc ?j) ?xs"
    using j by (simp add: Cons_nth_drop_Suc)
  have u: "[?j..<length ?xs] = ?j # [Suc ?j..<length ?xs]"
    using j by (simp add: upt_conv_Cons)
  show ?case
    using IH idx t dr u by (simp add: resolve_def)
qed

lemma fetch_page_try_received: "fetch_page_try session url = received (session url 10)"
  by (simp add: fetch_page_try_def received_def split: sum.splits option.splits)

lemma fetch_places_try_received:
  "fetch_places_try w city place api_key limit k query st =
     (case received (search_get w k ''https://serpapi.com/search'' (params query limit api_key)) of
        Inl e \<Rightarrow> (Some e, st)
      | Inr results \<Rightarrow>
     (case py_get results ''organic_results'' (PList []) of
        Inl e \<Rightarrow> (Some e, st)
      | Inr organic_results \<Rightarrow>
     (case py_iter organic_results of
        Inl e \<Rightarrow> (Some e, st)
      | Inr entries \<Rightarrow>
     (case results_loop w city place entries [] st of
        (Some e, tasks, st1) \<Rightarrow> (Some e, st1)
      | (None, tasks, st1) \<Rightarrow>
          (case gather (latency w k)
                  (map (\<lambda>(i, link). extract_place_details (stripped_strings w) (page_get w k i) link)
                     (enumerate 0 tasks)) of
             (Inl e, logged) \<Rightarrow> (Some e, st1\<lparr>log := log st1 @ logged\<rparr>)
           | (Inr details_results, logged) \<Rightarrow>
               (let st2 = st1\<lparr>log := log st1 @ logged\<rparr>
                in case merge_loop (length details_results) 0 details_results st2 of
                     (Some e, st3) \<Rightarrow> (Some e, st3)
                   | (None, st3) \<Rightarrow>
                       (None, st3\<lparr>slept := slept st3 + DELAY_BETWEEN_QUERIES\<rparr>)))))))"
proof (cases "search_get w k ''https://serpapi.com/search'' (params query limit api_key)")
  case (Inl e)
  then show ?thesis
    by (simp add: fetch_places_try_def received_def)
next
  case (Inr resp)
  then show ?thesis
    by (cases "raise_for_status resp"; cases "content resp")
      (simp_all add: fetch_places_try_def received_def)
qed

lemma fetch_places_try_failed:
  "received (search_get w k ''https://serpapi.com/search'' (params query limit api_key)) = Inl e \<Longrightarrow>
   fetch_places_try w city place api_key limit k query st = (Some e, st)"
  by (simp add: fetch_places_try_received)

lemma length_resolvers: "length (resolvers w k entries) = length entries"
  by (simp add: resolvers_def)

lemma all_return_iff: "all_return tasks \<longleftrightarrow> (\<forall>task\<in>set tasks. \<not> isl (fst task))"
  by (simp add: all_return_def list_all_iff)

lemma fetch_places_try_dicts:
  assumes "received (search_get w k ''https://serpapi.com/search'' (params query limit api_key)) = Inr results"
    and "py_get results ''organic_results'' (PList []) = Inr organic"
    and "py_iter organic = Inr entries"
    and "list_all is_dict entries"
    and "all_return (resolvers w k entries)"
  shows "fetch_places_try w city place api_key limit k query st =
     (None, st\<lparr>all_data := all_data st @ batch w city place k (clock st) entries,
               assigned := assigned st @ [length (all_data st) ..< length (all_data st) + length entries],
               log := log st @ snd (gather (latency w k) (resolvers w k entries)),
               clock := clock st + length entries,
               slept := slept st + DELAY_BETWEEN_QUERIES\<rparr>)"
proof -
  let ?news = "map (created w city place) (enumerate (clock st) entries)"
  let ?g = "gather (latency w k) (resolvers w k entries)"
  let ?ds = "map (\<lambda>task. projr (fst task)) (resolvers w k entries)"
  let ?st2 = "st\<lparr>all_data := all_data st @ ?news, clock := clock st + length entries,
                 log := log st @ snd ?g\<rparr>"
  have g: "?g = (Inr ?ds, snd ?g)"
    using gather_returned [of "resolvers w k entries" "latency w k"] assms(5)
    by (simp add: all_return_iff prod_eq_iff)
  have m: "merge_loop (length entries) 0 ?ds ?st2 =
     (None, ?st2\<lparr>all_data := all_data st @ map2 resolve ?news ?ds,
                 assigned := assigned st @ [length (all_data st) ..< length (all_data st) + length entries]\<rparr>)"
    using merge_loop_closed [of 0 ?ds "length entries" ?st2]
    by (simp add: length_resolvers)
  have r: "results_loop w city place entries [] st =
     (None, map (\<lambda>r. get_or r ''link'' (PStr [])) entries,
      st\<lparr>all_data := all_data st @ ?news, clock := clock st + length entries\<rparr>)"
    using results_loop_dicts [OF assms(4), of w city place "[]" st] by simp
  have g': "gather (latency w k)
      (map (\<lambda>(i, link). extract_place_details (stripped_strings w) (page_get w k i) link)
         (enumerate 0 (map (\<lambda>r. get_or r ''link'' (PStr [])) entries))) =
      (Inr ?ds, snd ?g)"
    using g by (simp add: resolvers_def)
  show ?thesis
    unfolding fetch_places_try_received
    using assms(1-3) m by (simp add: r g' length_resolvers batch_def)
qed

lemma fetch_places_try_raised:
  assumes "received (search_get w k ''https://serpapi.com/search'' (params query limit api_key)) = Inr results"
    and "py_get results ''organic_results'' (PList []) = Inr organic"
    and "py_iter organic = Inr entries"
    and "list_all is_dict entries"
    and "\<not> all_return (resolvers w k entries)"
  shows "\<exists>e. fetch_places_try w city place api_key limit k query st =
     (Some e, st\<lparr>all_data := all_data st @ map (created w city place) (enumerate (clock st) entries),
                 clock := clock st + length entries,
                 log := log st @ snd (gather (latency w k) (resolvers w k entries))\<rparr>)"
proof -
  let ?news = "map (created w city place) (enumerate (clock st) entries)"
  let ?g = "gather (latency w k) (resolvers w k entries)"
  from gather_raised [of "resolvers w k entries" "latency w k"] assms(5)
  obtain e where "fst ?g = Inl e"
    by (auto simp: all_return_iff)
  then have g: "?g = (Inl e, snd ?g)"
    by (simp add: prod_eq_iff)
  have r: "results_loop w city place entries [] st =
     (None, map (\<lambda>r. get_or r ''link'' (PStr [])) entries,
      st\<lparr>all_data := all_data st @ ?news, clock := clock st + length entries\<rparr>)"
    using results_loop_dicts [OF assms(4), of w city place "[]" st] by simp
  have g': "gather (latency w k)
      (map (\<lambda>(i, link). extract_place_details (stripped_strings w) (page_get w k i) link)
         (enumerate 0 (map (\<lambda>r. get_or r ''link'' (PStr [])) entries))) =
      (Inl e, snd ?g)"
    using g by (simp add: resolvers_def)
  show ?thesis
    unfolding fetch_places_try_received
    using assms(1-3) by (intro exI [of _ e]) (simp add: r g')
qed

lemma fetch_place_failed:
  "received (search_get w k ''https://serpapi.com/search'' (params (place @ '' in '' @ city) limit api_key)) = Inl e \<Longrightarrow>
   fetch_place w city api_key limit k place st =
     st\<lparr>log := log st @ [(INFO, Searching (place @ '' in '' @ city)),
                         (ERROR, Error_fetching place city e)]\<rparr>"
  by (simp add: fetch_place_def fetch_places_try_failed)

lemma fetch_place_dicts:
  assumes "received (search_get w k ''https://serpapi.com/search'' (params (place @ '' in '' @ city) limit api_key)) = Inr results"
    and "py_get results ''organic_results'' (PList []) = Inr organic"
    and "py_iter organic = Inr entries"
    and "list_all is_dict entries"
    and "all_return (resolvers w k entries)"
  shows "fetch_place w city api_key limit k place st =
     st\<lparr>all_data := all_data st @ batch w city place k (clock st) entries,
        assigned := assigned st @ [length (all_data st) ..< length (all_data st) + length entries],
        log := log st @ (INFO, Searching (place @ '' in '' @ city))
                 # snd (gather (latency w k) (resolvers w k entries)),
        clock := clock st + length entries,
        slept := slept st + DELAY_BETWEEN_QUERIES\<rparr>"
proof -
  let ?st0 = "st\<lparr>log := log st @ [(INFO, Searching (place @ '' in '' @ city))]\<rparr>"
  have "fetch_places_try w city place api_key limit k (place @ '' in '' @ city) ?st0 =
     (None, ?st0\<lparr>all_data := all_data ?st0 @ batch w city place k (clock ?st0) entries,
               assigned := assigned ?st0 @ [length (all_data ?st0) ..< length (all_data ?st0) + length entries],
               log := log ?st0 @ snd (gather (latency w k) (resolvers w k entries)),
               clock := clock ?st0 + length entries,
               slept := slept ?st0 + DELAY_BETWEEN_QUERIES\<rparr>)"
    by (rule fetch_places_try_dicts [OF assms])
  then show ?thesis
    unfolding fetch_place_def Let_def by simp
qed

lemma fetch_place_raised:
  assumes "received (search_get w k ''https://serpapi.com/search'' (params (place @ '' in '' @ city) limit api_key)) = Inr results"
    and "py_get results ''organic_results'' (PList []) = Inr organic"
    and "py_iter organic = Inr entries"
    and "list_all is_dict entries"
    and "\<not> all_return (resolvers w k entries)"
  shows "\<exists>e. fetch_place w city api_key limit k place st =
     st\<lparr>all_data := all_data st @ map (created w city place) (enumerate (clock st) entries),
        clock := clock st + length entries,
        log := log st @ (INFO, Searching (place @ '' in '' @ city))
                 # snd (gather (latency w k) (resolvers w k entries))
                 @ [(ERROR, Error_fetching place city e)]\<rparr>"
proof -
  let ?st0 = "st\<lparr>log := log st @ [(INFO, Searching (place @ '' in '' @ city))]\<rparr>"
  from fetch_places_try_raised [OF assms, where city = city and place = place and st = ?st0]
  obtain e where "fetch_places_try w city place api_key limit k (place @ '' in '' @ city) ?st0 =
     (Some e, ?st0\<lparr>all_data := all_data ?st0 @ map (created w city place) (enumerate (clock ?st0) entries),
                 clock := clock ?st0 + length entries,
                 log := log ?st0 @ snd (gather (latency w k) (resolvers w k entries))\<rparr>)"
    by blast
  then show ?thesis
    unfolding fetch_place_def Let_def by (intro exI [of _ e]) simp
qed

lemma results_loop_same:
  "same_but_log s t \<Longrightarrow>
   fst (results_loop w city place entries tasks s) = fst (results_loop w city place entries tasks t)
   \<and> fst (snd (results_loop w city place entries tasks s)) = fst (snd (results_loop w city place entries tasks t))
   \<and> same_but_log (snd (snd (results_loop w city place entries tasks s))) (snd (snd (results_loop w city place entries tasks t)))
   \<and> log (snd (snd (results_loop w city place entries tasks s))) = log s"
proof (induction entries arbitrary: tasks s t)
  case Nil
  then show ?case by simp
next
  case (Cons r rest)
  show ?case
  proof (cases "is_dict r")
    case False
    with Cons.prems show ?thesis by (simp add: py_get_not_dict)
  next
    case True
    let ?upd = "\<lambda>u. u\<lparr>all_data := all_data u @ [created w city place (clock u, r)], clock := Suc (clock u)\<rparr>"
    have "same_but_log (?upd s) (?upd t)"
      using Cons.prems by (simp add: same_but_log_def)
    from Cons.IH [OF this, of "tasks @ [get_or r ''link'' (PStr [])]"] True
    show ?thesis by (simp add: py_get_dict created_def)
  qed
qed

lemma merge_loop_same:
  "same_but_log s t \<Longrightarrow>
   fst (merge_loop n i ds s) = fst (merge_loop n i ds t)
   \<and> same_but_log (snd (merge_loop n i ds s)) (snd (merge_loop n i ds t))
   \<and> log (snd (merge_loop n i ds s)) = log s"
proof (induction ds arbitrary: i s t)
  case Nil
  then show ?case by simp
next
  case (Cons d ds)
  from Cons.prems have eq: "all_data s = all_data t"
    by (simp add: same_but_log_def)
  show ?case
  proof (cases "py_index (length (all_data t)) (- int n + int i)")
    case (Inl e)
    with Cons.prems eq show ?thesis by simp
  next
    case (Inr j)
    let ?upd = "\<lambda>u. u\<lparr>all_data := (all_data u)[j := (all_data u ! j)\<lparr>Details := Some d\<rparr>],
                        assigned := assigned u @ [j]\<rparr>"
    have "same_but_log (?upd s) (?upd t)"
      using Cons.prems by (simp add: same_but_log_def)
    from Cons.IH [OF this, of "Suc i"] Inr eq
    show ?thesis by simp
  qed
qed

lemma same_but_log_log: "same_but_log s t \<Longrightarrow> same_but_log (s\<lparr>log := l\<rparr>) (t\<lparr>log := l'\<rparr>)"
  by (simp add: same_but_log_def)

lemma same_but_log_slept: "same_but_log s t \<Longrightarrow> same_but_log (s\<lparr>slept := slept s + d\<rparr>) (t\<lparr>slept := slept t + d\<rparr>)"
  by (simp add: same_but_log_def)

lemma fetch_places_try_same:
  assumes "same_but_log s t"
  shows "fst (fetch_places_try w city place api_key limit k query s)
           = fst (fetch_places_try w city place api_key limit k query t)
         \<and> same_but_log (snd (fetch_places_try w city place api_key limit k query s))
                           (snd (fetch_places_try w city place api_key limit k query t))"
proof (cases "received (search_get w k ''https://serpapi.com/search'' (params query limit api_key))")
  case (Inl e)
  with assms show ?thesis by (simp add: fetch_places_try_received)
next
  case results: (Inr results)
  show ?thesis
  proof (cases "py_get results ''organic_results'' (PList [])")
    case (Inl e)
    with assms results show ?thesis by (simp add: fetch_places_try_received)
  next
    case organic: (Inr organic)
    show ?thesis
    proof (cases "py_iter organic")
      case (Inl e)
      with assms results organic show ?thesis by (simp add: fetch_places_try_received)
    next
      case entries: (Inr entries)
      obtain eo tasks s1 where s1: "results_loop w city place entries [] s = (eo, tasks, s1)"
        by (cases "results_loop w city place entries [] s")
      obtain eo' tasks' t1 where t1: "results_loop w city place entries [] t = (eo', tasks', t1)"
        by (cases "results_loop w city place entries [] t")
      from results_loop_same [OF assms, of w city place entries "[]"] s1 t1
      have same1: "eo' = eo" "tasks' = tasks" "same_but_log s1 t1"
        by simp_all
      show ?thesis
      proof (cases eo)
        case (Some e)
        with results organic entries s1 t1 same1 show ?thesis
          by (simp add: fetch_places_try_received)
      next
        case None
        obtain outcome logged where g: "gather (latency w k)
            (map (\<lambda>(i, link). extract_place_details (stripped_strings w) (page_get w k i) link)
               (enumerate 0 tasks)) = (outcome, logged)"
          by (cases "gather (latency w k)
            (map (\<lambda>(i, link). extract_place_details (stripped_strings w) (page_get w k i) link)
               (enumerate 0 tasks))")
        have same2: "same_but_log (s1\<lparr>log := log s1 @ logged\<rparr>) (t1\<lparr>log := log t1 @ logged\<rparr>)"
          using same1(3) by (rule same_but_log_log)
        show ?thesis
        proof (cases outcome)
          case (Inl e)
          with results organic entries s1 t1 same1 None g same2 show ?thesis
            by (simp add: fetch_places_try_received)
        next
          case (Inr ds)
          obtain eo2 s3 where s3: "merge_loop (length ds) 0 ds (s1\<lparr>log := log s1 @ logged\<rparr>) = (eo2, s3)"
            by (cases "merge_loop (length ds) 0 ds (s1\<lparr>log := log s1 @ logged\<rparr>)")
          obtain eo2' t3 where t3: "merge_loop (length ds) 0 ds (t1\<lparr>log := log t1 @ logged\<rparr>) = (eo2', t3)"
            by (cases "merge_loop (length ds) 0 ds (t1\<lparr>log := log t1 @ logged\<rparr>)")
          from merge_loop_same [OF same2, of "length ds" 0 ds] s3 t3
          have same3: "eo2' = eo2" "same_but_log s3 t3"
            by simp_all
          show ?thesis
            using results organic entries s1 t1 same1 None g Inr s3 t3 same3 same_but_log_slept [OF same3(2)]
            by (cases eo2) (simp_all add: fetch_places_try_received)
        qed
      qed
    qed
  qed
qed

lemma fetch_place_same:
  assumes "same_but_log s t"
  shows "same_but_log (fetch_place w city api_key limit k place s) (fetch_place w city api_key limit k place t)"
proof -
  let ?q = "place @ '' in '' @ city"
  let ?s0 = "s\<lparr>log := log s @ [(INFO, Searching ?q)]\<rparr>"
  let ?t0 = "t\<lparr>log := log t @ [(INFO, Searching ?q)]\<rparr>"
  have "same_but_log ?s0 ?t0"
    using assms by (rule same_but_log_log)
  from fetch_places_try_same [OF this, of w city place api_key limit k ?q]
  show ?thesis
    unfolding fetch_place_def Let_def
    by (auto simp: same_but_log_def split: prod.splits option.splits)
qed

lemma fetch_places_loop_same:
  "same_but_log s t \<Longrightarrow>
   same_but_log (fetch_places_loop w city api_key limit k places s)
                (fetch_places_loop w city api_key limit k places t)"
proof (induction places arbitrary: k s t)
  case Nil
  then show ?case by simp
next
  case (Cons place rest)
  from Cons.prems have "same_but_log (fetch_place w city api_key limit k place s)
                                      (fetch_place w city api_key limit k place t)"
    by (rule fetch_place_same)
  then show ?case
    by (simp add: Cons.IH)
qed

section \<open>Properties of the page fetcher\<close>

lemma fetch_page_try_cases:
  "(\<exists>response text. session url 10 = Inr response \<and> raise_for_status response = None
        \<and> content response = Inr text \<and> fetch_page_try session url = Inr text)
   \<or> (\<exists>e. (session url 10 = Inl e
            \<or> (\<exists>response. session url 10 = Inr response
                 \<and> (raise_for_status response = Some e
                      \<or> raise_for_status response = None \<and> content response = Inl e)))
          \<and> fetch_page_try session url = Inl e)"
  by (auto simp: fetch_page_try_def split: sum.splits option.splits)

text \<open>
  C3: \<open>fetch_page\<close> asks the session for the URL with the timeout 10. Either the
  request, the status check and the reading of the body all succeed, and it returns the
  body and logs nothing; or one of them fails with some exception \<open>e\<close>, and it returns
  the empty string and logs one warning that holds the URL and \<open>e\<close>. Its result is always
  a string: no exception reaches the caller.
\<close>

theorem fetch_page_body_or_empty:
  "(\<exists>response text. session url 10 = Inr response \<and> raise_for_status response = None
        \<and> content response = Inr text \<and> fetch_page session url = (text, []))
   \<or> (\<exists>e. (session url 10 = Inl e
            \<or> (\<exists>response. session url 10 = Inr response
                 \<and> (raise_for_status response = Some e
                      \<or> raise_for_status response = None \<and> content response = Inl e)))
          \<and> fetch_page session url = ('''', [(WARNING, Failed_to_fetch_URL url e)]))"
  using fetch_page_try_cases [of session url]
  by (auto simp: fetch_page_def)

section \<open>Properties of the text extractor\<close>

text \<open>
  C5: on the empty markup \<open>extract_details_from_html\<close> returns \<open>N/A\<close>, whatever the
  parser and the character limit; the parser is not called.
\<close>

theorem extract_details_empty:
  "extract_details_from_html parser [] char_limit = Inr ''N/A''"
  by (simp add: extract_details_from_html_def)

text \<open>
  C4, as stated, fails: on the empty markup the result is \<open>N/A\<close>, three characters,
  also when the limit is 2.
\<close>

theorem extract_details_limit_counterexample:
  "extract_details_from_html demo_parser [] 2 = Inr ''N/A'' \<and> \<not> int (length ''N/A'') \<le> 2"
  by (simp add: extract_details_from_html_def)

lemma length_py_slice_to: "0 \<le> k \<Longrightarrow> int (length (py_slice_to xs k)) \<le> k"
  by (simp add: py_slice_to_def)

text \<open>
  C4, amended: the text that \<open>extract_details_from_html\<close> returns is no longer than the
  character limit when the limit is at least 3, and also when the markup is not empty
  and the limit is not negative. The default limit, 600, is of the first kind.
\<close>

theorem extract_details_length:
  "3 \<le> char_limit \<or> html \<noteq> [] \<and> 0 \<le> char_limit \<Longrightarrow>
   extract_details_from_html parser html char_limit = Inr text \<Longrightarrow>
   int (length text) \<le> char_limit"
  by (auto simp: extract_details_from_html_def Let_def length_py_slice_to
      split: if_splits sum.splits)

theorem extract_details_length_witness:
  "((3::int) \<le> 3 \<or> ''<p>Hello</p>'' \<noteq> [] \<and> (0::int) \<le> 3)
   \<and> extract_details_from_html demo_parser ''<p>Hello</p>'' 3 = Inr ''Hel''
   \<and> int (length ''Hel'') \<le> 3"
proof -
  have h1: "(3::int) \<le> 3 \<or> ''<p>Hello</p>'' \<noteq> [] \<and> (0::int) \<le> 3"
    by simp
  have h2: "extract_details_from_html demo_parser ''<p>Hello</p>'' 3 = Inr ''Hel''"
    by (simp add: extract_details_from_html_def demo_parser_def py_slice_to_def)
  from extract_details_length [OF h1 h2] h1 h2 show ?thesis
    by blast
qed

section \<open>Properties of the detail resolver\<close>

text \<open>
  C6: \<open>extract_place_details\<close> is \<open>fetch_page\<close> followed by
  \<open>extract_details_from_html\<close> at the limit 600: its outcome is the extractor's outcome
  on the fetched page, its log entries are the fetcher's. When the fetch fails, it
  returns the extractor's text on the empty markup, \<open>N/A\<close>, and raises nothing.
\<close>

theorem extract_place_details_composition:
  "extract_place_details parser session link
     = (extract_details_from_html parser (fst (fetch_page session link)) 600,
        snd (fetch_page session link))
   \<and> (received (session link 10) = Inl e \<longrightarrow>
        extract_place_details parser session link
          = (extract_details_from_html parser [] 600,
             [(WARNING, Failed_to_fetch_URL link e)])
        \<and> fst (extract_place_details parser session link) = Inr ''N/A'')"
  by (simp add: extract_place_details_def fetch_page_def fetch_page_try_received
      extract_details_from_html_def split: prod.splits)

theorem extract_place_details_composition_witness:
  "received (demo_session L2 10) = Inl TimeoutError
   \<and> extract_place_details demo_parser demo_session L2
       = (Inr ''N/A'', [(WARNING, Failed_to_fetch_URL L2 TimeoutError)])
   \<and> extract_place_details demo_parser demo_session L1 = (Inr ''Hello'', [])"
proof -
  have h: "received (demo_session L2 10) = Inl TimeoutError"
    by code_simp
  have a: "extract_place_details demo_parser demo_session L2
       = (Inr ''N/A'', [(WARNING, Failed_to_fetch_URL L2 TimeoutError)])"
    by code_simp
  have b: "extract_place_details demo_parser demo_session L1 = (Inr ''Hello'', [])"
    by code_simp
  from extract_place_details_composition [of demo_parser demo_session L2 TimeoutError] h a b
  show ?thesis
    by blast
qed

section \<open>Properties of the exporter\<close>



lemma length_batch: "length (batch w city place k c entries) = length entries"
  by (simp add: batch_def resolvers_def)

lemma nth_resolvers:
  "i < length entries \<Longrightarrow>
   resolvers w k entries ! i =
     extract_place_details (stripped_strings w) (page_get w k i) (get_or (entries ! i) ''link'' (PStr []))"
  by (simp add: resolvers_def nth_enumerate_eq)

lemma nth_batch:
  "i < length entries \<Longrightarrow>
   batch w city place k c entries ! i =
     resolve (created w city place (c + i, entries ! i))
       (projr (fst (extract_place_details (stripped_strings w) (page_get w k i)
          (get_or (entries ! i) ''link'' (PStr [])))))"
  by (simp add: batch_def resolvers_def nth_enumerate_eq)

lemma resolvers_latency: "resolvers (w\<lparr>latency := lat\<rparr>) k entries = resolvers w k entries"
  by (simp add: resolvers_def)

lemma batch_latency: "batch (w\<lparr>latency := lat\<rparr>) city place k c entries = batch w city place k c entries"
proof -
  have "created (w\<lparr>latency := lat\<rparr>) city place = created w city place"
    by (rule ext) (simp add: created_def)
  then show ?thesis
    by (simp add: batch_def resolvers_def)
qed

lemma get_or_PDict:
  "get_or (PDict kvs) key dflt = (case map_of kvs key of Some v \<Rightarrow> v | None \<Rightarrow> dflt)"
  by (simp add: get_or_def py_get_def split: option.splits)

text \<open>
  Whether the resolvers return or not, a round with object entries leaves one record
  for each entry, the created record but for its detail.
\<close>

lemma fetch_place_records:
  assumes "received (search_get w k ''https://serpapi.com/search'' (params (place @ '' in '' @ city) limit api_key)) = Inr results"
    and "py_get results ''organic_results'' (PList []) = Inr organic"
    and "py_iter organic = Inr entries"
    and "list_all is_dict entries"
  shows "\<exists>ds. length ds = length entries
      \<and> all_data (fetch_place w city api_key limit k place st) =
          all_data st @ map2 (\<lambda>r d. r\<lparr>Details := d\<rparr>)
            (map (created w city place) (enumerate (clock st) entries)) ds"
proof (cases "all_return (resolvers w k entries)")
  case True
  let ?ds = "map (\<lambda>task. Some (projr (fst task))) (resolvers w k entries)"
  have "batch w city place k (clock st) entries =
      map2 (\<lambda>r d. r\<lparr>Details := d\<rparr>) (map (created w city place) (enumerate (clock st) entries)) ?ds"
    by (intro nth_equalityI) (simp_all add: batch_def resolve_def length_resolvers)
  then show ?thesis
    by (intro exI [of _ ?ds]) (simp add: fetch_place_dicts [OF assms True] length_resolvers)
next
  case False
  let ?ds = "replicate (length entries) (None :: string option)"
  from fetch_place_raised [OF assms False, of st]
  obtain e where "fetch_place w city api_key limit k place st =
     st\<lparr>all_data := all_data st @ map (created w city place) (enumerate (clock st) entries),
        clock := clock st + length entries,
        log := log st @ (INFO, Searching (place @ '' in '' @ city))
                 # snd (gather (latency w k) (resolvers w k entries))
                 @ [(ERROR, Error_fetching place city e)]\<rparr>"
    by blast
  moreover have "map (created w city place) (enumerate (clock st) entries) =
      map2 (\<lambda>r d. r\<lparr>Details := d\<rparr>) (map (created w city place) (enumerate (clock st) entries)) ?ds"
    by (intro nth_equalityI) (simp_all add: created_def nth_enumerate_eq)
  ultimately show ?thesis
    by (intro exI [of _ ?ds]) simp
qed

section \<open>Properties of the query runner\<close>

text \<open>
  When the search of the \<open>k\<close>-th place type succeeds, its organic results are a list
  of \<open>N\<close> objects and every resolver of the batch returns, the round appends exactly
  \<open>N\<close> records behind the records that were there, and for every \<open>i < N\<close> the
  \<open>i\<close>-th of them has the link of the \<open>i\<close>-th entry and the detail that the \<open>i\<close>-th
  resolver, the one launched for that link, has returned. This holds for every latency
  of the resolvers, and the records are the same under any other latencies.
\<close>

lemma fetch_place_positional:
  assumes "received (search_get w k ''https://serpapi.com/search''
             (params (place @ '' in '' @ city) limit api_key)) = Inr results"
    and "py_get results ''organic_results'' (PList []) = Inr (PList entries)"
    and "list_all is_dict entries"
    and "all_return (resolvers w k entries)"
  shows "length (all_data (fetch_place w city api_key limit k place st))
           = length (all_data st) + length entries
    \<and> take (length (all_data st)) (all_data (fetch_place w city api_key limit k place st))
           = all_data st
    \<and> (\<forall>i<length entries.
          Link (all_data (fetch_place w city api_key limit k place st) ! (length (all_data st) + i))
            = get_or (entries ! i) ''link'' (PStr [])
          \<and> (\<exists>details.
                fst (extract_place_details (stripped_strings w) (page_get w k i)
                       (get_or (entries ! i) ''link'' (PStr []))) = Inr details
                \<and> Details (all_data (fetch_place w city api_key limit k place st) ! (length (all_data st) + i))
                    = Some details))
    \<and> (\<forall>lat. all_data (fetch_place (w\<lparr>latency := lat\<rparr>) city api_key limit k place st)
            = all_data (fetch_place w city api_key limit k place st))"
proof -
  have it: "py_iter (PList entries) = Inr entries"
    by (simp add: py_iter_def)
  note closed = fetch_place_dicts [OF assms(1,2) it assms(3,4)]
  have other: "all_data (fetch_place (w\<lparr>latency := lat\<rparr>) city api_key limit k place st)
      = all_data st @ batch w city place k (clock st) entries" for lat
  proof -
    have "received (search_get (w\<lparr>latency := lat\<rparr>) k ''https://serpapi.com/search''
             (params (place @ '' in '' @ city) limit api_key)) = Inr results"
      using assms(1) by simp
    moreover have "all_return (resolvers (w\<lparr>latency := lat\<rparr>) k entries)"
      using assms(4) by (simp add: resolvers_latency)
    ultimately show ?thesis
      using fetch_place_dicts [OF _ assms(2) it assms(3), of "w\<lparr>latency := lat\<rparr>" k place city limit api_key st]
      by (simp add: batch_latency)
  qed
  have returned: "\<exists>details. fst (extract_place_details (stripped_strings w) (page_get w k i)
                       (get_or (entries ! i) ''link'' (PStr []))) = Inr details
         \<and> projr (fst (extract_place_details (stripped_strings w) (page_get w k i)
                       (get_or (entries ! i) ''link'' (PStr [])))) = details"
    if "i < length entries" for i
  proof -
    from that have "resolvers w k entries ! i \<in> set (resolvers w k entries)"
      by (simp add: length_resolvers)
    with assms(4) have "\<not> isl (fst (resolvers w k entries ! i))"
      by (simp add: all_return_iff)
    with that show ?thesis
      by (cases "fst (extract_place_details (stripped_strings w) (page_get w k i)
                       (get_or (entries ! i) ''link'' (PStr [])))")
        (simp_all add: nth_resolvers)
  qed
  show ?thesis
    using returned
    by (auto simp: closed other length_batch nth_batch resolve_def created_def)
qed

text \<open>
  C1: the claim fails on the run in which the parser rejects the page at L1. The search
  succeeds with the two object entries A and B, and the round appends their two
  records. The resolver of L2 completes first and returns \<open>N/A\<close>; the resolver of L1
  raises, \<^verbatim>\<open>gather\<close> raises with it, the merge is skipped and the handler of the round
  logs the error. The record of B has no detail, although its resolver has returned
  one.
\<close>

theorem rejected_page_skips_merge:
  "received (search_get rejecting_world 0 ''https://serpapi.com/search''
      (params (''coffee shops'' @ '' in '' @ ''Lahore'') 2 API_KEY)) = Inr demo_results
   \<and> py_get demo_results ''organic_results'' (PList []) = Inr (PList [entry_A, entry_B])
   \<and> fst (extract_place_details (stripped_strings rejecting_world) (page_get rejecting_world 0 0) L1)
       = Inl ParserRejectedMarkup
   \<and> fst (extract_place_details (stripped_strings rejecting_world) (page_get rejecting_world 0 1) L2)
       = Inr ''N/A''
   \<and> map Link (all_data (fetch_place rejecting_world ''Lahore'' API_KEY 2 0 ''coffee shops'' start))
       = [L1, L2]
   \<and> map Details (all_data (fetch_place rejecting_world ''Lahore'' API_KEY 2 0 ''coffee shops'' start))
       = [None, None]
   \<and> log (fetch_place rejecting_world ''Lahore'' API_KEY 2 0 ''coffee shops'' start)
       = [(INFO, Searching ''coffee shops in Lahore''),
          (WARNING, Failed_to_fetch_URL L2 TimeoutError),
          (ERROR, Error_fetching ''coffee shops'' ''Lahore'' ParserRejectedMarkup)]"
  by code_simp

text \<open>
  C2: when the search request of a place type fails (the request itself, the status
  check, or the reading of the body), the round logs the error and changes nothing
  else: \<^verbatim>\<open>all_data\<close> is as it was before the round. The loop then goes on with the
  remaining place types, and the records at its end are those of the remaining place
  types run from the state before the failed round.
\<close>

theorem failed_search_is_skipped:
  assumes "received (search_get w k ''https://serpapi.com/search''
             (params (place @ '' in '' @ city) limit api_key)) = Inl e"
  shows "fetch_place w city api_key limit k place st
           = st\<lparr>log := log st @ [(INFO, Searching (place @ '' in '' @ city)),
                                  (ERROR, Error_fetching place city e)]\<rparr>
    \<and> all_data (fetch_place w city api_key limit k place st) = all_data st
    \<and> all_data (fetch_places_loop w city api_key limit k (place # rest) st)
          = all_data (fetch_places_loop w city api_key limit (Suc k) rest st)"
proof -
  note failed = fetch_place_failed [OF assms]
  have "same_but_log (fetch_place w city api_key limit k place st) st"
    by (simp add: failed same_but_log_def)
  then have "same_but_log
      (fetch_places_loop w city api_key limit (Suc k) rest (fetch_place w city api_key limit k place st))
      (fetch_places_loop w city api_key limit (Suc k) rest st)"
    by (rule fetch_places_loop_same)
  then show ?thesis
    by (simp add: failed same_but_log_def)
qed

theorem failed_search_is_skipped_witness:
  "received (search_get demo_world 0 ''https://serpapi.com/search''
      (params (''tea houses'' @ '' in '' @ ''Lahore'') 2 API_KEY)) = Inl (ClientResponseError 429)
   \<and> fetch_place demo_world ''Lahore'' API_KEY 2 0 ''tea houses'' start
       = start\<lparr>log := [(INFO, Searching ''tea houses in Lahore''),
                         (ERROR, Error_fetching ''tea houses'' ''Lahore'' (ClientResponseError 429))]\<rparr>
   \<and> all_data (fetch_places_loop demo_world ''Lahore'' API_KEY 2 0 [''tea houses'', ''coffee shops''] start)
       = [record_A, record_B]"
proof -
  have h: "received (search_get demo_world 0 ''https://serpapi.com/search''
      (params (''tea houses'' @ '' in '' @ ''Lahore'') 2 API_KEY)) = Inl (ClientResponseError 429)"
    by (simp add: received_def demo_world_def params_def)
  have "all_data (fetch_places_loop demo_world ''Lahore'' API_KEY 2 (Suc 0) [''coffee shops''] start)
       = [record_A, record_B]"
    by code_simp
  with failed_search_is_skipped [OF h, of start "[''coffee shops'']"]
  have "all_data (fetch_places_loop demo_world ''Lahore'' API_KEY 2 0 [''tea houses'', ''coffee shops''] start)
       = [record_A, record_B]"
    by (simp only:)
  moreover
  have "fetch_place demo_world ''Lahore'' API_KEY 2 0 ''tea houses'' start
       = start\<lparr>log := [(INFO, Searching ''tea houses in Lahore''),
                         (ERROR, Error_fetching ''tea houses'' ''Lahore'' (ClientResponseError 429))]\<rparr>"
    by code_simp
  ultimately show ?thesis
    using h by blast
qed

text \<open>
  C7: when the search succeeds and its organic results are a list of objects, the loop
  over the entries ends without an exception and appends one record for each entry. The
  record of the \<open>i\<close>-th entry has the city and the place type of the query, the
  entry's title, snippet and link where it has them and \<open>N/A\<close>, \<open>N/A\<close> and the empty
  string where it has not, no detail yet, and the time that the clock gives when it is
  read for this record. At the end of the round the record is the same but for its
  detail.
\<close>

theorem created_record_fields:
  assumes "received (search_get w k ''https://serpapi.com/search''
             (params (place @ '' in '' @ city) limit api_key)) = Inr results"
    and "py_get results ''organic_results'' (PList []) = Inr (PList entries)"
    and "list_all is_dict entries"
    and "i < length entries"
    and "entries ! i = PDict kvs"
  shows "(case results_loop w city place entries tasks s of
            (failure, tasks', s') \<Rightarrow>
              failure = None
              \<and> length (all_data s') = length (all_data s) + length entries
              \<and> all_data s' ! (length (all_data s) + i) =
                   \<lparr>City = city, Place_Type = place,
                    Name = (case map_of kvs ''title'' of Some v \<Rightarrow> v | None \<Rightarrow> PStr ''N/A''),
                    Description = (case map_of kvs ''snippet'' of Some v \<Rightarrow> v | None \<Rightarrow> PStr ''N/A''),
                    Details = None,
                    Link = (case map_of kvs ''link'' of Some v \<Rightarrow> v | None \<Rightarrow> PStr []),
                    Fetched_On = now w (clock s + i)\<rparr>)
    \<and> (\<exists>details.
          all_data (fetch_place w city api_key limit k place st) ! (length (all_data st) + i) =
            \<lparr>City = city, Place_Type = place,
             Name = (case map_of kvs ''title'' of Some v \<Rightarrow> v | None \<Rightarrow> PStr ''N/A''),
             Description = (case map_of kvs ''snippet'' of Some v \<Rightarrow> v | None \<Rightarrow> PStr ''N/A''),
             Details = details,
             Link = (case map_of kvs ''link'' of Some v \<Rightarrow> v | None \<Rightarrow> PStr []),
             Fetched_On = now w (clock st + i)\<rparr>)"
proof -
  have it: "py_iter (PList entries) = Inr entries"
    by (simp add: py_iter_def)
  from fetch_place_records [OF assms(1,2) it assms(3), of st]
  obtain ds where ds: "length ds = length entries"
    "all_data (fetch_place w city api_key limit k place st) =
          all_data st @ map2 (\<lambda>r d. r\<lparr>Details := d\<rparr>)
            (map (created w city place) (enumerate (clock st) entries)) ds"
    by blast
  have loop: "case results_loop w city place entries tasks s of
            (failure, tasks', s') \<Rightarrow>
              failure = None
              \<and> length (all_data s') = length (all_data s) + length entries
              \<and> all_data s' ! (length (all_data s) + i) =
                   \<lparr>City = city, Place_Type = place,
                    Name = (case map_of kvs ''title'' of Some v \<Rightarrow> v | None \<Rightarrow> PStr ''N/A''),
                    Description = (case map_of kvs ''snippet'' of Some v \<Rightarrow> v | None \<Rightarrow> PStr ''N/A''),
                    Details = None,
                    Link = (case map_of kvs ''link'' of Some v \<Rightarrow> v | None \<Rightarrow> PStr []),
                    Fetched_On = now w (clock s + i)\<rparr>"
    using assms(4,5)
    by (simp add: results_loop_dicts [OF assms(3)] nth_enumerate_eq created_def get_or_PDict)
  have "all_data (fetch_place w city api_key limit k place st) ! (length (all_data st) + i) =
            \<lparr>City = city, Place_Type = place,
             Name = (case map_of kvs ''title'' of Some v \<Rightarrow> v | None \<Rightarrow> PStr ''N/A''),
             Description = (case map_of kvs ''snippet'' of Some v \<Rightarrow> v | None \<Rightarrow> PStr ''N/A''),
             Details = ds ! i,
             Link = (case map_of kvs ''link'' of Some v \<Rightarrow> v | None \<Rightarrow> PStr []),
             Fetched_On = now w (clock st + i)\<rparr>"
    using assms(4,5) ds
    by (simp add: nth_enumerate_eq created_def get_or_PDict)
  with loop show ?thesis
    by blast
qed

theorem created_record_fields_witness:
  "received (search_get demo_world 0 ''https://serpapi.com/search''
      (params (''coffee shops'' @ '' in '' @ ''Lahore'') 2 API_KEY)) = Inr demo_results
   \<and> py_get demo_results ''organic_results'' (PList []) = Inr (PList [entry_A, entry_B])
   \<and> list_all is_dict [entry_A, entry_B]
   \<and> (0::nat) < length [entry_A, entry_B]
   \<and> [entry_A, entry_B] ! 0 = PDict [(''title'', PStr ''A''), (''link'', L1)]
   \<and> results_loop demo_world ''Lahore'' ''coffee shops'' [entry_A, entry_B] [] start
       = (None, [L1, L2],
          start\<lparr>all_data := [record_A\<lparr>Details := None\<rparr>, record_B\<lparr>Details := None\<rparr>],
                clock := 2\<rparr>)
   \<and> all_data (fetch_place demo_world ''Lahore'' API_KEY 2 0 ''coffee shops'' start) ! 0 = record_A"
proof -
  have h1: "received (search_get demo_world 0 ''https://serpapi.com/search''
      (params (''coffee shops'' @ '' in '' @ ''Lahore'') 2 API_KEY)) = Inr demo_results"
    by (simp add: received_def demo_world_def params_def ok_response_def)
  have h2: "py_get demo_results ''organic_results'' (PList []) = Inr (PList [entry_A, entry_B])"
    by (simp add: py_get_def demo_results_def)
  have h3: "list_all is_dict [entry_A, entry_B]"
    by (simp add: is_dict_def entry_A_def entry_B_def)
  have h4: "(0::nat) < length [entry_A, entry_B]"
    by simp
  have h5: "[entry_A, entry_B] ! 0 = PDict [(''title'', PStr ''A''), (''link'', L1)]"
    by (simp add: entry_A_def)
  have r: "results_loop demo_world ''Lahore'' ''coffee shops'' [entry_A, entry_B] [] start
       = (None, [L1, L2],
          start\<lparr>all_data := [record_A\<lparr>Details := None\<rparr>, record_B\<lparr>Details := None\<rparr>],
                clock := 2\<rparr>)"
    by code_simp
  have f: "all_data (fetch_place demo_world ''Lahore'' API_KEY 2 0 ''coffee shops'' start) ! 0 = record_A"
    by code_simp
  from created_record_fields [OF h1 h2 h3 h4 h5, where tasks = "[]" and s = start and st = start]
    h1 h2 h3 h4 h5 r f
  show ?thesis by blast
qed

text \<open>
  C10: the limit reaches the search request as its \<^verbatim>\<open>num\<close> parameter and nothing
  else of the round: two limits on which the search request has the same outcome give
  the same round. When the search succeeds and its organic results are a list of
  objects, the round appends one record for each entry, however many the limit asked
  for; it appends none when the list is empty, and the list is empty when the response
  has no \<^verbatim>\<open>organic_results\<close>.
\<close>

theorem limit_not_enforced:
  assumes "received (search_get w k ''https://serpapi.com/search''
             (params (place @ '' in '' @ city) limit api_key)) = Inr results"
    and "py_get results ''organic_results'' (PList []) = Inr (PList entries)"
    and "list_all is_dict entries"
  shows "map_of (params (place @ '' in '' @ city) limit api_key) ''num'' = Some (PInt limit)
    \<and> (\<forall>limit'.
          search_get w k ''https://serpapi.com/search'' (params (place @ '' in '' @ city) limit' api_key)
            = search_get w k ''https://serpapi.com/search'' (params (place @ '' in '' @ city) limit api_key)
          \<longrightarrow> fetch_place w city api_key limit' k place st = fetch_place w city api_key limit k place st)
    \<and> length (all_data (fetch_place w city api_key limit k place st))
          = length (all_data st) + length entries
    \<and> (entries = [] \<longrightarrow> all_data (fetch_place w city api_key limit k place st) = all_data st)
    \<and> ((\<exists>kvs. results = PDict kvs \<and> map_of kvs ''organic_results'' = None) \<longrightarrow> entries = [])"
proof -
  have it: "py_iter (PList entries) = Inr entries"
    by (simp add: py_iter_def)
  from fetch_place_records [OF assms(1,2) it assms(3), of st]
  obtain ds where ds: "length ds = length entries"
    "all_data (fetch_place w city api_key limit k place st) =
          all_data st @ map2 (\<lambda>r d. r\<lparr>Details := d\<rparr>)
            (map (created w city place) (enumerate (clock st) entries)) ds"
    by blast
  have same: "fetch_place w city api_key limit' k place st = fetch_place w city api_key limit k place st"
    if "search_get w k ''https://serpapi.com/search'' (params (place @ '' in '' @ city) limit' api_key)
            = search_get w k ''https://serpapi.com/search'' (params (place @ '' in '' @ city) limit api_key)"
    for limit'
    using that by (simp add: fetch_place_def fetch_places_try_def)
  have absent: "entries = []" if "results = PDict kvs" "map_of kvs ''organic_results'' = None" for kvs
    using assms(2) that by (simp add: py_get_def)
  have num: "map_of (params (place @ '' in '' @ city) limit api_key) ''num'' = Some (PInt limit)"
    by (simp add: params_def)
  have len: "length (all_data (fetch_place w city api_key limit k place st))
          = length (all_data st) + length entries"
    using ds by simp
  have none: "all_data (fetch_place w city api_key limit k place st) = all_data st" if "entries = []"
    using that ds by simp
  from num same len none absent show ?thesis
    by blast
qed

theorem limit_not_enforced_witness:
  "received (search_get demo_world 0 ''https://serpapi.com/search''
      (params (''coffee shops'' @ '' in '' @ ''Lahore'') 1 API_KEY)) = Inr demo_results
   \<and> py_get demo_results ''organic_results'' (PList []) = Inr (PList [entry_A, entry_B])
   \<and> list_all is_dict [entry_A, entry_B]
   \<and> length (all_data (fetch_place demo_world ''Lahore'' API_KEY 1 0 ''coffee shops'' start)) = 2
   \<and> fetch_place demo_world ''Lahore'' API_KEY 5 0 ''coffee shops'' start
       = fetch_place demo_world ''Lahore'' API_KEY 1 0 ''coffee shops'' start"
proof -
  have h1: "received (search_get demo_world 0 ''https://serpapi.com/search''
      (params (''coffee shops'' @ '' in '' @ ''Lahore'') 1 API_KEY)) = Inr demo_results"
    by (simp add: received_def demo_world_def params_def ok_response_def)
  have h2: "py_get demo_results ''organic_results'' (PList []) = Inr (PList [entry_A, entry_B])"
    by (simp add: py_get_def demo_results_def)
  have h3: "list_all is_dict [entry_A, entry_B]"
    by (simp add: is_dict_def entry_A_def entry_B_def)
  have s: "search_get demo_world 0 ''https://serpapi.com/search'' (params (''coffee shops'' @ '' in '' @ ''Lahore'') 5 API_KEY)
      = search_get demo_world 0 ''https://serpapi.com/search'' (params (''coffee shops'' @ '' in '' @ ''Lahore'') 1 API_KEY)"
    by (simp add: demo_world_def params_def)
  note T = limit_not_enforced [OF h1 h2 h3, of start]
  from T have "length (all_data (fetch_place demo_world ''Lahore'' API_KEY 1 0 ''coffee shops'' start))
      = length (all_data start) + length [entry_A, entry_B]"
    by blast
  then have len: "length (all_data (fetch_place demo_world ''Lahore'' API_KEY 1 0 ''coffee shops'' start)) = 2"
    by (simp add: start_def)
  from T s have "fetch_place demo_world ''Lahore'' API_KEY 5 0 ''coffee shops'' start
       = fetch_place demo_world ''Lahore'' API_KEY 1 0 ''coffee shops'' start"
    by blast
  with len h1 h2 h3 show ?thesis by blast
qed

lemma count_list_upt: "count_list [a..<b] j = (if a \<le> j \<and> j < b then 1 else 0)"
  by (induction b) auto

lemma results_loop_unresolved:
  "\<exists>news. all_data (snd (snd (results_loop w city place entries tasks s))) = all_data s @ news
      \<and> (\<forall>r\<in>set news. Details r = None)
      \<and> assigned (snd (snd (results_loop w city place entries tasks s))) = assigned s"
proof (induction entries arbitrary: tasks s)
  case Nil
  show ?case by simp
next
  case (Cons r rest)
  show ?case
  proof (cases "is_dict r")
    case False
    then show ?thesis by (simp add: py_get_not_dict)
  next
    case True
    let ?s1 = "s\<lparr>all_data := all_data s @ [created w city place (clock s, r)], clock := Suc (clock s)\<rparr>"
    from Cons.IH [of "tasks @ [get_or r ''link'' (PStr [])]" ?s1]
    obtain news where
      "all_data (snd (snd (results_loop w city place rest (tasks @ [get_or r ''link'' (PStr [])]) ?s1)))
         = all_data ?s1 @ news"
      "\<forall>r\<in>set news. Details r = None"
      "assigned (snd (snd (results_loop w city place rest (tasks @ [get_or r ''link'' (PStr [])]) ?s1)))
         = assigned ?s1"
      by blast
    with True show ?thesis
      by (intro exI [of _ "created w city place (clock s, r) # news"])
        (simp add: py_get_dict created_def)
  qed
qed

lemma results_loop_raises:
  "\<not> list_all is_dict entries \<Longrightarrow> \<exists>e. fst (results_loop w city place entries tasks s) = Some e"
proof (induction entries arbitrary: tasks s)
  case Nil
  then show ?case by simp
next
  case (Cons r rest)
  show ?case
  proof (cases "is_dict r")
    case False
    then show ?thesis by (simp add: py_get_not_dict)
  next
    case True
    with Cons.prems have "\<not> list_all is_dict rest" by simp
    from Cons.IH [OF this] True show ?thesis
      by (simp add: py_get_dict)
  qed
qed

lemma fetch_place_appends_any:
  "\<exists>news. all_data (fetch_place w city api_key limit k place st) = all_data st @ news
      \<and> ((\<forall>r\<in>set news. Details r \<noteq> None)
            \<and> assigned (fetch_place w city api_key limit k place st)
                = assigned st @ [length (all_data st) ..< length (all_data st) + length news]
          \<or> (\<forall>r\<in>set news. Details r = None)
            \<and> assigned (fetch_place w city api_key limit k place st) = assigned st)"
proof -
  let ?q = "place @ '' in '' @ city"
  let ?st0 = "st\<lparr>log := log st @ [(INFO, Searching ?q)]\<rparr>"
  have failing: ?thesis if "fetch_places_try w city place api_key limit k ?q ?st0 = (Some e, ?st0)" for e
    using that by (intro exI [of _ "[]"]) (simp add: fetch_place_def Let_def)
  have dicts: ?thesis
    if hyps: "received (search_get w k ''https://serpapi.com/search'' (params ?q limit api_key)) = Inr results"
      "py_get results ''organic_results'' (PList []) = Inr organic"
      "py_iter organic = Inr entries"
      "list_all is_dict entries"
    for results organic entries
  proof (cases "all_return (resolvers w k entries)")
    case True
    have "\<forall>r\<in>set (batch w city place k (clock st) entries). Details r \<noteq> None"
      by (auto simp: batch_def resolve_def dest!: set_zip_leftD set_zip_rightD in_set_zipE)
    then show ?thesis
      by (intro exI [of _ "batch w city place k (clock st) entries"])
        (simp add: fetch_place_dicts [OF hyps True] length_batch)
  next
    case False
    from fetch_place_raised [OF hyps False, of st]
    obtain e where "fetch_place w city api_key limit k place st =
       st\<lparr>all_data := all_data st @ map (created w city place) (enumerate (clock st) entries),
          clock := clock st + length entries,
          log := log st @ (INFO, Searching ?q)
                   # snd (gather (latency w k) (resolvers w k entries))
                   @ [(ERROR, Error_fetching place city e)]\<rparr>"
      by blast
    then show ?thesis
      by (intro exI [of _ "map (created w city place) (enumerate (clock st) entries)"])
        (auto simp: created_def)
  qed
  show ?thesis
  proof (cases "received (search_get w k ''https://serpapi.com/search'' (params ?q limit api_key))")
    case (Inl e)
    then show ?thesis
      by (intro failing [of e]) (rule fetch_places_try_failed)
  next
    case results: (Inr results)
    show ?thesis
    proof (cases "py_get results ''organic_results'' (PList [])")
      case (Inl e)
      with results show ?thesis
        by (intro failing [of e]) (simp add: fetch_places_try_received)
    next
      case organic: (Inr organic)
      show ?thesis
      proof (cases "py_iter organic")
        case (Inl e)
        with results organic show ?thesis
          by (intro failing [of e]) (simp add: fetch_places_try_received)
      next
        case entries: (Inr entries)
        show ?thesis
        proof (cases "list_all is_dict entries")
          case True
          with results organic entries show ?thesis
            by (rule dicts)
        next
          case False
          obtain eo tasks st1 where loop: "results_loop w city place entries [] ?st0 = (eo, tasks, st1)"
            by (cases "results_loop w city place entries [] ?st0")
          from results_loop_raises [OF False, of w city place "[]" ?st0] loop
          obtain e where e: "eo = Some e" by auto
          from results_loop_unresolved [of w city place entries "[]" ?st0] loop
          obtain news where news: "all_data st1 = all_data st @ news"
            "\<forall>r\<in>set news. Details r = None" "assigned st1 = assigned st"
            by auto
          from results organic entries loop e
          have "fetch_place w city api_key limit k place st
                  = st1\<lparr>log := log st1 @ [(ERROR, Error_fetching place city e)]\<rparr>"
            by (simp add: fetch_place_def Let_def fetch_places_try_received)
          with news show ?thesis
            by (intro exI [of _ news]) simp
        qed
      qed
    qed
  qed
qed

lemma fetch_place_at_most_once:
  assumes "at_most_once st"
  shows "at_most_once (fetch_place w city api_key limit k place st)"
proof -
  let ?L = "length (all_data st)"
  let ?st' = "fetch_place w city api_key limit k place st"
  from assms have old: "\<forall>j<?L. Details (all_data st ! j) = None \<and> count_list (assigned st) j = 0
        \<or> Details (all_data st ! j) \<noteq> None \<and> count_list (assigned st) j = 1"
    and below: "\<forall>j\<in>set (assigned st). j < ?L"
    by (simp_all add: at_most_once_def)
  have fresh: "count_list (assigned st) j = 0" if "?L \<le> j" for j
    using below that by (auto simp: count_list_0_iff)
  from fetch_place_appends_any [of w city api_key limit k place st]
  obtain news where data: "all_data ?st' = all_data st @ news"
    and alt: "(\<forall>r\<in>set news. Details r \<noteq> None)
            \<and> assigned ?st' = assigned st @ [?L ..< ?L + length news]
          \<or> (\<forall>r\<in>set news. Details r = None) \<and> assigned ?st' = assigned st"
    by blast
  from alt show ?thesis
  proof
    assume a: "(\<forall>r\<in>set news. Details r \<noteq> None)
            \<and> assigned ?st' = assigned st @ [?L ..< ?L + length news]"
    have "Details ((all_data st @ news) ! j) = None
            \<and> count_list (assigned st @ [?L ..< ?L + length news]) j = 0
          \<or> Details ((all_data st @ news) ! j) \<noteq> None
            \<and> count_list (assigned st @ [?L ..< ?L + length news]) j = 1"
      if "j < ?L + length news" for j
    proof (cases "j < ?L")
      case True
      with old show ?thesis
        by (simp add: nth_append count_list_upt)
    next
      case False
      with that have "news ! (j - ?L) \<in> set news"
        by simp
      with a False that fresh [of j] show ?thesis
        by (simp add: nth_append count_list_upt)
    qed
    moreover have "\<forall>j\<in>set (assigned st @ [?L ..< ?L + length news]). j < ?L + length news"
      using below by auto
    ultimately show ?thesis
      using a by (simp add: at_most_once_def data)
  next
    assume b: "(\<forall>r\<in>set news. Details r = None) \<and> assigned ?st' = assigned st"
    have "Details ((all_data st @ news) ! j) = None \<and> count_list (assigned st) j = 0
          \<or> Details ((all_data st @ news) ! j) \<noteq> None \<and> count_list (assigned st) j = 1"
      if "j < ?L + length news" for j
    proof (cases "j < ?L")
      case True
      with old show ?thesis
        by (simp add: nth_append)
    next
      case False
      with that have "news ! (j - ?L) \<in> set news"
        by simp
      with b False fresh [of j] show ?thesis
        by (simp add: nth_append)
    qed
    moreover have "\<forall>j\<in>set (assigned st). j < ?L + length news"
      using below by auto
    ultimately show ?thesis
      using b by (simp add: at_most_once_def data)
  qed
qed

lemma fetch_places_loop_at_most_once:
  "at_most_once st \<Longrightarrow> at_most_once (fetch_places_loop w city api_key limit k places st)"
  by (induction places arbitrary: k st) (simp_all add: fetch_place_at_most_once)

section \<open>The detail of a record\<close>

text \<open>
  A record is created with no detail: whatever the loop over the entries appends has
  \<open>Details = None\<close>, and the loop assigns no detail. At the return of
  \<open>fetch_places_async\<close>, in every run, a record either has no detail and the
  assignment \<^verbatim>\<open>all_data[...]["Details"] = details\<close> has never been executed at its
  position, or it has a detail and the assignment has been executed exactly once at its
  position: a detail that is set is never set again.
\<close>

lemma details_assigned_at_most_once:
  "(\<exists>news. all_data (snd (snd (results_loop w city place entries tasks s))) = all_data s @ news
       \<and> (\<forall>r\<in>set news. Details r = None)
       \<and> assigned (snd (snd (results_loop w city place entries tasks s))) = assigned s)
   \<and> (case fetch_places_async w city place_types api_key limit st of
         (data, st') \<Rightarrow>
           (\<forall>j<length data.
              Details (data ! j) = None \<and> count_list (assigned st') j = 0
              \<or> Details (data ! j) \<noteq> None \<and> count_list (assigned st') j = 1))"
proof -
  let ?st0 = "st\<lparr>all_data := [], assigned := []\<rparr>"
  let ?end = "fetch_places_loop w city api_key limit 0 place_types ?st0"
  have "at_most_once ?st0"
    by (simp add: at_most_once_def)
  then have "at_most_once ?end"
    by (rule fetch_places_loop_at_most_once)
  then have any: "\<forall>j<length (all_data ?end).
              Details (all_data ?end ! j) = None \<and> count_list (assigned ?end) j = 0
              \<or> Details (all_data ?end ! j) \<noteq> None \<and> count_list (assigned ?end) j = 1"
    by (simp add: at_most_once_def)
  have "fetch_places_async w city place_types api_key limit st = (all_data ?end, ?end)"
    by (simp add: fetch_places_async_def Let_def)
  with any results_loop_unresolved [of w city place entries tasks s] show ?thesis
    by (simp del: results_loop.simps fetch_places_loop.simps)
qed

text \<open>
  C9: the claim fails on the run in which the parser rejects the page at L1. The two
  records of the batch are created with no detail; \<^verbatim>\<open>gather\<close> raises with the
  resolver of L1, the handler of the round logs the error, and
  \<open>fetch_places_async\<close> returns both records with \<open>Details = None\<close>: the assignment of
  the detail has been executed for neither.
\<close>

theorem rejected_page_leaves_details_unset:
  "fst (fetch_places_async rejecting_world ''Lahore'' [''coffee shops''] API_KEY 2 start)
     = [record_A\<lparr>Details := None\<rparr>, record_B\<lparr>Details := None\<rparr>]
   \<and> assigned (snd (fetch_places_async rejecting_world ''Lahore'' [''coffee shops''] API_KEY 2 start))
     = []
   \<and> log (snd (fetch_places_async rejecting_world ''Lahore'' [''coffee shops''] API_KEY 2 start))
     = [(INFO, Searching ''coffee shops in Lahore''),
        (WARNING, Failed_to_fetch_URL L2 TimeoutError),
        (ERROR, Error_fetching ''coffee shops'' ''Lahore'' ParserRejectedMarkup)]"
  by code_simp

text \<open>
  An entry that is not an object has the same effect. When the second entry of the list
  is a number, the loop has appended the record of the first entry before
  \<^verbatim>\<open>result.get\<close> raises on the second; the handler logs the error, and the record
  stays in \<^verbatim>\<open>all_data\<close> with no detail.
\<close>

lemma malformed_entry_leaves_unresolved:
  "fst (fetch_places_async malformed_world ''Lahore'' [''coffee shops''] API_KEY 2 start)
     = [record_A\<lparr>Details := None\<rparr>]
   \<and> log (snd (fetch_places_async malformed_world ''Lahore'' [''coffee shops''] API_KEY 2 start))
     = [(INFO, Searching ''coffee shops in Lahore''),
        (ERROR, Error_fetching ''coffee shops'' ''Lahore'' AttributeError)]"
  by code_simp

end
